theory Spec2Isabelle
  imports Main "HOL-Library.AList" "HOL-Library.Sublist" "HOL-Library.Multiset"
begin

section \<open>JavaScript values and errors\<close>

text \<open>
  The node (\<^verbatim>\<open>ReplicateGen.node.ts\<close>) handles untyped JavaScript values: HTTP responses,
  parameter objects, the variable \<^verbatim>\<open>responseData\<close> that is declared without an initial
  value. They are modelled by one datatype. Numbers are integers (no floating point
  is involved in any property below); an object is an association list in which the first
  binding of a key is the one that is read.
\<close>

datatype jsval =
    JUndefined
  | JNull
  | JBool bool
  | JNum int
  | JStr string
  | JArr "jsval list"
  | JObj "(string \<times> jsval) list"

text \<open>
  Everything the code can throw. \<open>NodeApiError message res\<close> is
  \<^verbatim>\<open>new NodeApiError(this.getNode(), {message, res})\<close>; \<open>TypeError v p\<close> is the engine's
  error for reading property \<open>p\<close> of \<open>v\<close> when \<open>v\<close> is \<^verbatim>\<open>undefined\<close> or \<^verbatim>\<open>null\<close>;
  \<open>TransportError e\<close> is a rejection \<open>e\<close> of the HTTP helper that no handler catches.
\<close>

datatype error =
    TypeError jsval string
  | NodeApiError string jsval
  | TransportError jsval

text \<open>
  The node raises three errors of its own, all of them \<open>NodeApiError\<close>s told apart by
  their message: \<open>No get url found in response\<close> when the submission has no status URL
  (the specification's \<^verbatim>\<open>SubmissionError\<close>), \<open>Error getting data from replicate\<close> when
  polling has failed too often (\<^verbatim>\<open>PollingError\<close>), and \<open>Prediction failed\<close> when the job
  reports failure (\<^verbatim>\<open>PredictionFailedError\<close>).
\<close>

text \<open>
  Property read \<^verbatim>\<open>v.p\<close>, for the property names the node reads (\<^verbatim>\<open>status\<close>, \<^verbatim>\<open>urls\<close>,
  \<^verbatim>\<open>get\<close>, and the slots of a parameter object): it throws on \<^verbatim>\<open>undefined\<close> and \<^verbatim>\<open>null\<close>,
  reads the binding of an object, and is \<^verbatim>\<open>undefined\<close> on every other value.
\<close>

definition js_get :: "jsval \<Rightarrow> string \<Rightarrow> error + jsval" where
  "js_get v p =
     (case v of
        JUndefined \<Rightarrow> Inl (TypeError v p)
      | JNull \<Rightarrow> Inl (TypeError v p)
      | JObj kvs \<Rightarrow> Inr (case map_of kvs p of None \<Rightarrow> JUndefined | Some x \<Rightarrow> x)
      | _ \<Rightarrow> Inr JUndefined)"

definition nullish :: "jsval \<Rightarrow> bool" where
  "nullish v = (v = JUndefined \<or> v = JNull)"

text \<open>\<^verbatim>\<open>!v\<close>: the values JavaScript treats as false.\<close>

definition falsy :: "jsval \<Rightarrow> bool" where
  "falsy v = (v = JUndefined \<or> v = JNull \<or> v = JBool False \<or> v = JNum 0 \<or> v = JStr [])"

text \<open>\<^verbatim>\<open>a ?? b\<close>\<close>

definition nullish_coalesce :: "jsval \<Rightarrow> jsval \<Rightarrow> jsval" where
  "nullish_coalesce a b = (if nullish a then b else a)"

section \<open>Schema translator\<close>

subsection \<open>\<^verbatim>\<open>getModelProperties\<close>: the type coercion\<close>

record ReplicateProperty =
  title :: string
  description :: string
  type :: string

record INodePropertyOptions =
  opt_name :: string
  opt_value :: string
  opt_description :: string

text \<open>
  The conditional expression of lines 251--255,
  \<^verbatim>\<open>['integer','number'].includes(value.type) ? 'number' : ['boolean'].includes(value.type) ? 'boolean' : 'string'\<close>.
\<close>

definition coerce_type :: "string \<Rightarrow> string" where
  "coerce_type t =
     (if t \<in> set [''integer'', ''number''] then ''number''
      else if t \<in> set [''boolean''] then ''boolean''
      else ''string'')"

text \<open>
  The loop over \<^verbatim>\<open>Object.entries(inputs)\<close>; \<open>inputs\<close> is the list of entries, in the
  order the schema presents them.
\<close>

definition getModelProperties :: "(string \<times> ReplicateProperty) list \<Rightarrow> INodePropertyOptions list" where
  "getModelProperties inputs =
     map (\<lambda>(key, v). \<lparr>opt_name = title v,
                       opt_value = key @ ''|'' @ coerce_type (type v),
                       opt_description = description v\<rparr>) inputs"

subsection \<open>\<^verbatim>\<open>mapProperties\<close>: the request body\<close>

text \<open>\<^verbatim>\<open>s.split(c)\<close> for a one-character separator: never empty, \<^verbatim>\<open>''.split('|')\<close> is \<^verbatim>\<open>['']\<close>.\<close>

fun split_on :: "char \<Rightarrow> string \<Rightarrow> string list" where
  "split_on c [] = [[]]"
| "split_on c (x # xs) =
     (if x = c then [] # split_on c xs
      else (case split_on c xs of
              [] \<Rightarrow> [[x]]
            | w # ws \<Rightarrow> (x # w) # ws))"

text \<open>
  \<^verbatim>\<open>prop.key.split('|')[1]\<close> inside the template literal \<^verbatim>\<open>`${type}Value`\<close>: an index out
  of range reads \<^verbatim>\<open>undefined\<close>, which the template prints as the text \<^verbatim>\<open>undefined\<close>.
\<close>

definition slot_name :: "string \<Rightarrow> string" where
  "slot_name key =
     (case split_on CHR ''|'' key of
        _ # t # _ \<Rightarrow> t @ ''Value''
      | _ \<Rightarrow> ''undefined'' @ ''Value'')"

text \<open>\<^verbatim>\<open>prop.key.split('|')[0]\<close>\<close>

definition prop_name :: "string \<Rightarrow> string" where
  "prop_name key = (case split_on CHR ''|'' key of [] \<Rightarrow> [] | k # _ \<Rightarrow> k)"

text \<open>\<^verbatim>\<open>prop[slot]\<close> on a parameter object.\<close>

definition js_lookup :: "(string \<times> jsval) list \<Rightarrow> string \<Rightarrow> jsval" where
  "js_lookup obj p = (case map_of obj p of None \<Rightarrow> JUndefined | Some x \<Rightarrow> x)"

text \<open>The \<^verbatim>\<open>.filter\<close> step keeps the objects whose \<^verbatim>\<open>key\<close> is a string.\<close>

definition key_of :: "(string \<times> jsval) list \<Rightarrow> string option" where
  "key_of property = (case map_of property ''key'' of Some (JStr k) \<Rightarrow> Some k | _ \<Rightarrow> None)"

text \<open>The \<^verbatim>\<open>.map\<close> step: the pair \<^verbatim>\<open>[name, value]\<close> of one kept object.\<close>

definition prop_entry :: "(string \<times> jsval) list \<Rightarrow> string \<Rightarrow> string \<times> jsval" where
  "prop_entry prop key =
     (let value_slot = nullish_coalesce (js_lookup prop (slot_name key)) (JStr [])
      in (prop_name key, value_slot))"

text \<open>
  \<^verbatim>\<open>Object.assign(obj, {[key]: value})\<close> sets \<^verbatim>\<open>obj[key]\<close>: a key already present keeps
  its place and takes the new value, a new key goes at the end (the order of the members
  plays no role below). The key \<^verbatim>\<open>__proto__\<close> is the one exception: on a plain object it
  is the accessor inherited from \<^verbatim>\<open>Object.prototype\<close>, so setting it creates no member.
\<close>

definition object_assign :: "(string \<times> jsval) list \<Rightarrow> string \<Rightarrow> jsval \<Rightarrow> (string \<times> jsval) list" where
  "object_assign obj key v = (if key = ''__proto__'' then obj else AList.update key v obj)"

text \<open>
  \<^verbatim>\<open>mapProperties\<close>: the \<^verbatim>\<open>.filter\<close> and \<^verbatim>\<open>.map\<close> steps, then the \<^verbatim>\<open>.reduce\<close> step that
  collects the pairs into one object, starting from the empty one.
\<close>

definition mapProperties :: "(string \<times> jsval) list list \<Rightarrow> (string \<times> jsval) list" where
  "mapProperties properties =
     foldl (\<lambda>obj (key, v). object_assign obj key v) []
       (List.map_filter (\<lambda>property. map_option (prop_entry property) (key_of property)) properties)"

text \<open>
  The defaults that the description of the node declares for the three typed slots of a
  selection, lines 153--184: \<^verbatim>\<open>booleanValue\<close> has \<^verbatim>\<open>default: false\<close>, \<^verbatim>\<open>numberValue\<close> has
  \<^verbatim>\<open>default: 0\<close>, \<^verbatim>\<open>stringValue\<close> has \<^verbatim>\<open>default: ''\<close>.
\<close>

definition declared_default :: "string \<Rightarrow> jsval option" where
  "declared_default slot =
     (if slot = ''booleanValue'' then Some (JBool False)
      else if slot = ''numberValue'' then Some (JNum 0)
      else if slot = ''stringValue'' then Some (JStr [])
      else None)"

subsection \<open>\<^verbatim>\<open>getModelVersions\<close>: the version listing\<close>

text \<open>
  A version descriptor of the registry's answer: a text identifier, and whatever value
  the answer holds under \<^verbatim>\<open>created_at\<close> (\<^verbatim>\<open>undefined\<close> when it holds none).
\<close>

record version =
  version_id :: string
  created_at :: jsval

record INodeListSearchItems =
  item_name :: string
  item_value :: string
  item_url :: string

text \<open>
  \<^verbatim>\<open>results.sort(compare)\<close>. A comparator result is a number or \<^verbatim>\<open>NaN\<close> (here \<open>None\<close>),
  and the sort reads \<^verbatim>\<open>NaN\<close> as \<open>+0\<close>. The engine's sort is stable and places \<open>a\<close>
  before \<open>b\<close> when \<open>compare a b\<close> is negative; it is modelled by a stable insertion sort
  driven by the comparator.
\<close>

definition sort_order :: "int option \<Rightarrow> int" where
  "sort_order v = (case v of None \<Rightarrow> 0 | Some n \<Rightarrow> n)"

fun insert_by :: "('a \<Rightarrow> 'a \<Rightarrow> int option) \<Rightarrow> 'a \<Rightarrow> 'a list \<Rightarrow> 'a list" where
  "insert_by compare x [] = [x]"
| "insert_by compare x (y # ys) =
     (if sort_order (compare x y) \<le> 0 then x # y # ys else y # insert_by compare x ys)"

definition js_sort :: "('a \<Rightarrow> 'a \<Rightarrow> int option) \<Rightarrow> 'a list \<Rightarrow> 'a list" where
  "js_sort compare xs = foldr (insert_by compare) xs []"

text \<open>
  The comparator of line 213,
  \<^verbatim>\<open>new Date(b.created_at).getTime() - new Date(a.created_at).getTime()\<close>. The parameter
  \<open>getTime\<close> stands for \<^verbatim>\<open>new Date(v).getTime()\<close>, the platform's reading of a value as a
  number of milliseconds: it is \<^verbatim>\<open>NaN\<close> (\<open>None\<close>) for a value that is not a date, a missing
  one included, and a difference with \<^verbatim>\<open>NaN\<close> is \<^verbatim>\<open>NaN\<close>.
\<close>

definition newest_first :: "(jsval \<Rightarrow> int option) \<Rightarrow> version \<Rightarrow> version \<Rightarrow> int option" where
  "newest_first getTime a b =
     (case getTime (created_at b) of
        None \<Rightarrow> None
      | Some tb \<Rightarrow> (case getTime (created_at a) of
                     None \<Rightarrow> None
                   | Some ta \<Rightarrow> Some (tb - ta)))"

text \<open>
  \<open>results\<close> is the \<^verbatim>\<open>results\<close> field of the registry's answer. \<^verbatim>\<open>id.includes(filter)\<close> is
  \<open>sublist filter id\<close>: the filter occurs as a contiguous part of the identifier.
\<close>

definition getModelVersions ::
    "(jsval \<Rightarrow> int option) \<Rightarrow> string \<Rightarrow> string \<Rightarrow> version list \<Rightarrow> INodeListSearchItems list" where
  "getModelVersions getTime modelName filter_text results =
     map (\<lambda>result. \<lparr>item_name = version_id result,
                      item_value = version_id result,
                      item_url = ''https://replicate.com/'' @ modelName @ ''/versions/'' @ version_id result\<rparr>)
       (filter (\<lambda>result. sublist filter_text (version_id result))
          (js_sort (newest_first getTime) results))"

section \<open>Job client\<close>

subsection \<open>The remote service and the clock\<close>

text \<open>
  The remote service is the sequence of outcomes of the HTTP helper, one per call and in
  the order of the calls: \<open>HttpOk d\<close> when the promise resolves with \<open>d\<close>, \<open>HttpErr e\<close>
  when it rejects with \<open>e\<close>. The state of a run counts the calls made so far, keeps the
  ordered log of what the node did (each request, each timer), and holds the variable
  \<^verbatim>\<open>responseData\<close>, which \<^verbatim>\<open>execute\<close> declares once, outside the loop over the items.
\<close>

datatype http_result = HttpOk jsval | HttpErr jsval

datatype event =
    Sleep nat
  | Request string jsval jsval

record exec_state =
  calls :: nat
  trace :: "event list"
  responseData :: jsval

text \<open>\<^verbatim>\<open>await new Promise((resolve) => setTimeout(resolve, ms))\<close>\<close>

definition sleep :: "nat \<Rightarrow> exec_state \<Rightarrow> exec_state" where
  "sleep ms s = s\<lparr>trace := trace s @ [Sleep ms]\<rparr>"

text \<open>\<^verbatim>\<open>await this.helpers.httpRequestWithAuthentication.call(this, 'replicateApi', {method, url, body})\<close>\<close>

definition httpRequest ::
    "(nat \<Rightarrow> http_result) \<Rightarrow> string \<Rightarrow> jsval \<Rightarrow> jsval \<Rightarrow> exec_state \<Rightarrow> http_result \<times> exec_state" where
  "httpRequest http method url body s =
     (http (calls s), s\<lparr>calls := calls s + 1, trace := trace s @ [Request method url body]\<rparr>)"

subsection \<open>The polling loop\<close>

datatype iter_result = Continue nat | Break | Throw error

text \<open>
  Lines 336--343, the test of \<^verbatim>\<open>responseData.status\<close> that ends every iteration of the
  loop that has not thrown.
\<close>

definition check_status :: "nat \<Rightarrow> exec_state \<Rightarrow> iter_result \<times> exec_state" where
  "check_status numErrors s =
     (case js_get (responseData s) ''status'' of
        Inl e \<Rightarrow> (Throw e, s)
      | Inr status \<Rightarrow>
          if status = JStr ''failed'' then (Throw (NodeApiError ''Prediction failed'' (responseData s)), s)
          else if status = JStr ''succeeded'' then (Break, s)
          else (Continue numErrors, s))"

text \<open>
  One iteration of \<^verbatim>\<open>while (true)\<close>, lines 314--343. The assignment to \<^verbatim>\<open>responseData\<close>
  happens only when the request resolves. The handler of a rejected request counts it,
  throws when the count exceeds 2, and otherwise waits 10000 ms; control then leaves the
  \<^verbatim>\<open>try\<close> statement and reaches the status test with \<^verbatim>\<open>responseData\<close> unchanged.
\<close>

definition poll_iter ::
    "(nat \<Rightarrow> http_result) \<Rightarrow> jsval \<Rightarrow> nat \<Rightarrow> exec_state \<Rightarrow> iter_result \<times> exec_state" where
  "poll_iter http getUrl numErrors s =
     (let s1 = sleep 5000 s;
          (r, s2) = httpRequest http ''GET'' getUrl JUndefined s1
      in case r of
           HttpOk d \<Rightarrow> check_status numErrors (s2\<lparr>responseData := d\<rparr>)
         | HttpErr e \<Rightarrow>
             (let n = numErrors + 1
              in if n > 2 then (Throw (NodeApiError ''Error getting data from replicate'' e), s2)
                 else check_status n (sleep 10000 s2)))"

text \<open>
  The loop has no bound: a run that never leaves it has the result \<open>None\<close>.
\<close>

partial_function (option) poll_loop ::
    "(nat \<Rightarrow> http_result) \<Rightarrow> jsval \<Rightarrow> nat \<Rightarrow> exec_state \<Rightarrow> ((error + unit) \<times> exec_state) option" where
  "poll_loop http getUrl numErrors s =
     (case poll_iter http getUrl numErrors s of
        (Continue n, s') \<Rightarrow> poll_loop http getUrl n s'
      | (Break, s') \<Rightarrow> Some (Inr (), s')
      | (Throw e, s') \<Rightarrow> Some (Inl e, s'))"

declare poll_loop.simps [code]

subsection \<open>One item: submission, then polling\<close>

record item_params =
  modelVersion :: string
  properties :: "(string \<times> jsval) list list"

record INodeExecutionData =
  json :: jsval
  pairedItem :: nat

text \<open>\<^verbatim>\<open>res.urls?.get\<close>\<close>

definition get_url :: "jsval \<Rightarrow> error + jsval" where
  "get_url res =
     (case js_get res ''urls'' of
        Inl e \<Rightarrow> Inl e
      | Inr urls \<Rightarrow> if nullish urls then Inr JUndefined else js_get urls ''get'')"

text \<open>
  Modelled from the spec: the host helpers \<^verbatim>\<open>returnJsonArray\<close> and
  \<^verbatim>\<open>constructExecutionMetaData\<close>, called at lines 346--349, belong to the host and are
  not part of the repository. Section 4.4 of the specification: a successful item
  contributes its result payload, tagged with its originating item index.
\<close>

definition executionData :: "jsval \<Rightarrow> nat \<Rightarrow> INodeExecutionData list" where
  "executionData payload i = [\<lparr>json = payload, pairedItem = i\<rparr>]"

text \<open>The body of the loop over the items, lines 282--350, for the item of index \<open>i\<close>.\<close>

definition run_item ::
    "(nat \<Rightarrow> http_result) \<Rightarrow> nat \<Rightarrow> item_params \<Rightarrow> exec_state
       \<Rightarrow> ((error + INodeExecutionData list) \<times> exec_state) option" where
  "run_item http i item s =
     (let body = JObj [(''version'', JStr (modelVersion item)),
                       (''input'', JObj (mapProperties (properties item)))];
          (r, s1) = httpRequest http ''POST'' (JStr ''https://api.replicate.com/v1/predictions'') body s
      in case r of
           HttpErr e \<Rightarrow> Some (Inl (TransportError e), s1)
         | HttpOk res \<Rightarrow>
             (case get_url res of
                Inl e \<Rightarrow> Some (Inl e, s1)
              | Inr getUrl \<Rightarrow>
                  if falsy getUrl then Some (Inl (NodeApiError ''No get url found in response'' res), s1)
                  else (case poll_loop http getUrl 0 s1 of
                          None \<Rightarrow> None
                        | Some (Inl e, s2) \<Rightarrow> Some (Inl e, s2)
                        | Some (Inr u, s2) \<Rightarrow> Some (Inr (executionData (responseData s2) i), s2))))"

subsection \<open>The batch\<close>

text \<open>
  The loop \<^verbatim>\<open>for (let i = 0; i < items.length; i++)\<close>: \<open>items\<close> holds the parameters the
  host resolves for the items that remain, \<open>i\<close> is the index of the first of them, and
  \<open>returnData\<close> is the output accumulated so far. An error leaves the loop at once.
\<close>

fun exec_items ::
    "(nat \<Rightarrow> http_result) \<Rightarrow> nat \<Rightarrow> item_params list \<Rightarrow> INodeExecutionData list \<Rightarrow> exec_state
       \<Rightarrow> ((error + INodeExecutionData list) \<times> exec_state) option" where
  "exec_items http i [] returnData s = Some (Inr returnData, s)"
| "exec_items http i (item # items) returnData s =
     (case run_item http i item s of
        None \<Rightarrow> None
      | Some (Inl e, s') \<Rightarrow> Some (Inl e, s')
      | Some (Inr data, s') \<Rightarrow> exec_items http (i + 1) items (returnData @ data) s')"

definition initial_state :: exec_state where
  "initial_state = \<lparr>calls = 0, trace = [], responseData = JUndefined\<rparr>"

text \<open>
  \<^verbatim>\<open>execute\<close>: the result is the thrown error, or \<^verbatim>\<open>[returnData]\<close>; with it comes the final
  state, whose log tells which calls were made.
\<close>

definition execute ::
    "(nat \<Rightarrow> http_result) \<Rightarrow> string \<Rightarrow> string \<Rightarrow> item_params list
       \<Rightarrow> ((error + INodeExecutionData list list) \<times> exec_state) option" where
  "execute http resource operation items =
     (if resource = ''model'' \<and> operation = ''prediction''
      then (case exec_items http 0 items [] initial_state of
              None \<Rightarrow> None
            | Some (Inl e, s) \<Rightarrow> Some (Inl e, s)
            | Some (Inr returnData, s) \<Rightarrow> Some (Inr [returnData], s))
      else Some (Inr [[]], initial_state))"

section \<open>Vocabulary of the properties\<close>

text \<open>
  What a poll response reports: \<open>status_is d st\<close> when reading \<^verbatim>\<open>d.status\<close> yields the
  text \<open>st\<close>; \<open>pending d\<close> when reading \<^verbatim>\<open>d.status\<close> yields a value that is neither
  \<^verbatim>\<open>'failed'\<close> nor \<^verbatim>\<open>'succeeded'\<close>.
\<close>

definition status_is :: "jsval \<Rightarrow> string \<Rightarrow> bool" where
  "status_is d st = (js_get d ''status'' = Inr (JStr st))"

definition pending :: "jsval \<Rightarrow> bool" where
  "pending d =
     (case js_get d ''status'' of
        Inl e \<Rightarrow> False
      | Inr st \<Rightarrow> st \<noteq> JStr ''failed'' \<and> st \<noteq> JStr ''succeeded'')"

text \<open>
  The log of one poll attempt, and the state after an attempt that resolved with \<open>d\<close>;
  \<open>polled_all\<close> is the state after a sequence of resolved attempts.
\<close>

definition poll_events :: "jsval \<Rightarrow> event list" where
  "poll_events getUrl = [Sleep 5000, Request ''GET'' getUrl JUndefined]"

definition polled :: "jsval \<Rightarrow> jsval \<Rightarrow> exec_state \<Rightarrow> exec_state" where
  "polled getUrl d s =
     s\<lparr>calls := calls s + 1, trace := trace s @ poll_events getUrl, responseData := d\<rparr>"

fun polled_all :: "jsval \<Rightarrow> jsval list \<Rightarrow> exec_state \<Rightarrow> exec_state" where
  "polled_all getUrl [] s = s"
| "polled_all getUrl (d # ds) s = polled_all getUrl ds (polled getUrl d s)"

text \<open>The log entry of the submission of an item, and the state after it.\<close>

definition submit_event :: "item_params \<Rightarrow> event" where
  "submit_event item =
     Request ''POST'' (JStr ''https://api.replicate.com/v1/predictions'')
       (JObj [(''version'', JStr (modelVersion item)),
              (''input'', JObj (mapProperties (properties item)))])"

definition submitted :: "item_params \<Rightarrow> exec_state \<Rightarrow> exec_state" where
  "submitted item s = s\<lparr>calls := calls s + 1, trace := trace s @ [submit_event item]\<rparr>"

section \<open>Schema translator: properties\<close>

text \<open>
  Claim C7. The type coercion is total and idempotent. Every declared type text is mapped
  to one of \<open>number\<close>, \<open>boolean\<close>, \<open>string\<close>: \<open>integer\<close> and \<open>number\<close> to
  \<open>number\<close>, \<open>boolean\<close> to \<open>boolean\<close>, everything else (\<open>string\<close>, \<open>array\<close>,
  \<open>object\<close> among them) to \<open>string\<close>. Coercing a result again changes nothing. There
  is no error path: \<open>getModelProperties\<close> yields one descriptor for every schema entry,
  whose value is the key, a bar and the coerced type.
\<close>

theorem coerce_type_total_idempotent:
  "coerce_type t \<in> {''number'', ''boolean'', ''string''}
   \<and> coerce_type ''integer'' = ''number''
   \<and> coerce_type ''number'' = ''number''
   \<and> coerce_type ''boolean'' = ''boolean''
   \<and> coerce_type ''string'' = ''string''
   \<and> coerce_type ''array'' = ''string''
   \<and> coerce_type ''object'' = ''string''
   \<and> (t \<noteq> ''integer'' \<and> t \<noteq> ''number'' \<and> t \<noteq> ''boolean'' \<longrightarrow> coerce_type t = ''string'')
   \<and> coerce_type (coerce_type t) = coerce_type t
   \<and> map opt_value (getModelProperties inputs)
       = map (\<lambda>(key, v). key @ ''|'' @ coerce_type (type v)) inputs"
  by (simp add: coerce_type_def getModelProperties_def split_def)

text \<open>
  The coercion at the declared type \<open>array\<close>.
\<close>

theorem coerce_type_total_idempotent_witness:
  "coerce_type ''array'' = ''string'' \<and> coerce_type (coerce_type ''array'') = ''string''"
  using coerce_type_total_idempotent [of "''array''" "[]"] by simp

subsection \<open>The request body\<close>

lemma split_on_no_sep: "c \<notin> set xs \<Longrightarrow> split_on c xs = [xs]"
  by (induction xs) auto

lemma split_on_first_sep: "c \<notin> set xs \<Longrightarrow> split_on c (xs @ c # ys) = xs # split_on c ys"
  by (induction xs) auto

lemma split_on_name_type:
  assumes "c \<notin> set name" and "c \<notin> set ty"
  shows "split_on c (name @ c # ty) = [name, ty]"
  using assms by (simp add: split_on_first_sep split_on_no_sep)

text \<open>
  What \<open>mapProperties\<close> does with one selection whose key is \<open>name|ty\<close>: it binds
  \<open>name\<close> to the content of the slot \<open>tyValue\<close> and, when that slot is absent or holds
  \<^verbatim>\<open>undefined\<close> or \<^verbatim>\<open>null\<close>, to the empty string, whatever the type \<open>ty\<close> is.
\<close>

lemma mapProperties_single_selection:
  assumes "CHR ''|'' \<notin> set name" and "CHR ''|'' \<notin> set ty" and "name \<noteq> ''__proto__''"
    and "map_of property ''key'' = Some (JStr (name @ ''|'' @ ty))"
  shows "mapProperties [property] =
           [(name, case map_of property (ty @ ''Value'') of
                     None \<Rightarrow> JStr []
                   | Some v \<Rightarrow> if v = JUndefined \<or> v = JNull then JStr [] else v)]"
proof -
  have sp: "split_on CHR ''|'' (name @ ''|'' @ ty) = [name, ty]"
    using split_on_name_type [OF assms(1,2)] by simp
  have k: "key_of property = Some (name @ ''|'' @ ty)"
    using assms(4) by (simp add: key_of_def)
  have e: "prop_entry property (name @ ''|'' @ ty) =
             (name, case map_of property (ty @ ''Value'') of
                     None \<Rightarrow> JStr []
                   | Some v \<Rightarrow> if v = JUndefined \<or> v = JNull then JStr [] else v)"
  proof (cases "map_of property (ty @ ''Value'')")
    case None
    then show ?thesis
      using sp by (simp add: prop_entry_def Let_def slot_name_def prop_name_def js_lookup_def
          nullish_coalesce_def nullish_def)
  next
    case (Some v)
    then show ?thesis
      using sp by (simp add: prop_entry_def Let_def slot_name_def prop_name_def js_lookup_def
          nullish_coalesce_def nullish_def)
  qed
  show ?thesis
    using k e assms(3) by (simp add: mapProperties_def object_assign_def)
qed

text \<open>
  With several selections, each one whose key is a text contributes its pair, and the
  last selection of a name decides the member of that name.
\<close>

lemma map_of_object_assign:
  "map_of (object_assign obj k v) n =
     (if k = ''__proto__'' then map_of obj n else ((map_of obj)(k \<mapsto> v)) n)"
  by (simp add: object_assign_def update_conv')

lemma map_of_foldl_object_assign:
  "map_of (foldl (\<lambda>obj (k, v). object_assign obj k v) acc es) n =
     (case map_of (rev (filter (\<lambda>(k, v). k \<noteq> ''__proto__'') es)) n of
        None \<Rightarrow> map_of acc n
      | Some v \<Rightarrow> Some v)"
proof (induction es arbitrary: acc)
  case Nil
  then show ?case by simp
next
  case (Cons e es)
  obtain k v where e: "e = (k, v)" by (cases e)
  show ?case
    using Cons.IH [of "object_assign acc k v"]
    by (auto simp: e map_of_object_assign map_add_def split: option.splits)
qed

lemma mapProperties_member:
  "map_of (mapProperties props) n =
     map_of (rev (filter (\<lambda>(k, v). k \<noteq> ''__proto__'')
                    (List.map_filter (\<lambda>property. map_option (prop_entry property) (key_of property))
                       props))) n"
  by (simp add: mapProperties_def map_of_foldl_object_assign split: option.splits)

text \<open>
  Claim C8 says that a selection whose slot was never populated gets the zero value of
  its type: \<^verbatim>\<open>false\<close> for a boolean selection, \<open>0\<close> for a number selection. The code
  does otherwise. A boolean selection without \<^verbatim>\<open>booleanValue\<close> is sent as the empty
  string, although the node declares \<^verbatim>\<open>false\<close> as the default of that slot; a number
  selection without \<^verbatim>\<open>numberValue\<close> is sent as the empty string, although the node declares
  \<open>0\<close> as the default of that slot.
\<close>

theorem mapProperties_unpopulated_slot:
  "mapProperties [[(''key'', JStr ''flag|boolean'')]] = [(''flag'', JStr [])]
   \<and> declared_default (slot_name ''flag|boolean'') = Some (JBool False)
   \<and> mapProperties [[(''key'', JStr ''steps|number'')]] = [(''steps'', JStr [])]
   \<and> declared_default (slot_name ''steps|number'') = Some (JNum 0)"
  by (simp add: mapProperties_def object_assign_def key_of_def prop_entry_def slot_name_def
      prop_name_def js_lookup_def nullish_coalesce_def nullish_def declared_default_def)

subsection \<open>The version listing\<close>






text \<open>The filter example of the specification.\<close>

lemma getModelVersions_filter_example:
  "map item_name
     (getModelVersions (\<lambda>d. Some 0) ''owner/model'' ''abc''
        [\<lparr>version_id = ''abc123'', created_at = JStr ''t''\<rparr>,
         \<lparr>version_id = ''abc456'', created_at = JStr ''t''\<rparr>,
         \<lparr>version_id = ''xyz789'', created_at = JStr ''t''\<rparr>])
   = [''abc123'', ''abc456'']"
  by code_simp

section \<open>Job client: one iteration of the loop\<close>

lemma poll_iter_resolved:
  assumes "http (calls s) = HttpOk d"
  shows "poll_iter http getUrl numErrors s = check_status numErrors (polled getUrl d s)"
  using assms by (simp add: poll_iter_def httpRequest_def sleep_def polled_def poll_events_def)

lemma poll_iter_rejected:
  assumes "http (calls s) = HttpErr x"
  shows "poll_iter http getUrl numErrors s =
           (if numErrors + 1 > 2
            then (Throw (NodeApiError ''Error getting data from replicate'' x),
                  s\<lparr>calls := calls s + 1, trace := trace s @ poll_events getUrl\<rparr>)
            else check_status (numErrors + 1)
                  (s\<lparr>calls := calls s + 1,
                     trace := trace s @ poll_events getUrl @ [Sleep 10000]\<rparr>))"
  using assms by (simp add: poll_iter_def httpRequest_def sleep_def poll_events_def)

lemma check_status_pending:
  assumes "pending (responseData s)"
  shows "check_status numErrors s = (Continue numErrors, s)"
  using assms by (auto simp: check_status_def pending_def split: sum.splits)

lemma check_status_succeeded:
  assumes "status_is (responseData s) ''succeeded''"
  shows "check_status numErrors s = (Break, s)"
  using assms by (simp add: check_status_def status_is_def)

lemma check_status_failed:
  assumes "status_is (responseData s) ''failed''"
  shows "check_status numErrors s = (Throw (NodeApiError ''Prediction failed'' (responseData s)), s)"
  using assms by (simp add: check_status_def status_is_def)

lemma polled_simps [simp]:
  "calls (polled getUrl d s) = calls s + 1"
  "trace (polled getUrl d s) = trace s @ poll_events getUrl"
  "responseData (polled getUrl d s) = d"
  by (simp_all add: polled_def)

text \<open>
  What an iteration can throw.
\<close>

lemma js_get_Inl:
  assumes "js_get v p = Inl e"
  shows "e = TypeError v p"
  using assms by (cases v) (simp_all add: js_get_def)

lemma check_status_throws:
  assumes "check_status numErrors s = (Throw e, s')"
  shows "(\<exists>v p. e = TypeError v p) \<or> e = NodeApiError ''Prediction failed'' (responseData s)"
proof (cases "js_get (responseData s) ''status''")
  case (Inl x)
  with assms have "e = x" by (simp add: check_status_def)
  with Inl show ?thesis using js_get_Inl by blast
next
  case (Inr st)
  with assms show ?thesis by (auto simp: check_status_def split: if_splits)
qed

lemma poll_iter_throws:
  assumes "poll_iter http getUrl numErrors s = (Throw e, s')"
  shows "(\<exists>v p. e = TypeError v p) \<or> (\<exists>d. e = NodeApiError ''Prediction failed'' d) \<or> (\<exists>x. e = NodeApiError ''Error getting data from replicate'' x)"
proof (cases "http (calls s)")
  case (HttpOk d)
  with assms have "check_status numErrors (polled getUrl d s) = (Throw e, s')"
    by (simp add: poll_iter_resolved)
  from check_status_throws [OF this] show ?thesis by blast
next
  case (HttpErr x)
  show ?thesis
  proof (cases "numErrors + 1 > 2")
    case True
    with assms have "e = NodeApiError ''Error getting data from replicate'' x"
      by (simp add: poll_iter_rejected [where http = http and s = s, OF HttpErr])
    then show ?thesis by blast
  next
    case False
    with assms obtain t where "check_status (numErrors + 1) t = (Throw e, s')"
      by (simp add: poll_iter_rejected [where http = http and s = s, OF HttpErr])
    from check_status_throws [OF this] show ?thesis by blast
  qed
qed

section \<open>Job client: the loop\<close>

lemma poll_loop_pending_step:
  assumes "http (calls s) = HttpOk d" and "pending d"
  shows "poll_loop http getUrl numErrors s = poll_loop http getUrl numErrors (polled getUrl d s)"
  using assms
  by (subst poll_loop.simps) (simp add: poll_iter_resolved check_status_pending)

lemma poll_loop_succeeded_step:
  assumes "http (calls s) = HttpOk d" and "status_is d ''succeeded''"
  shows "poll_loop http getUrl numErrors s = Some (Inr (), polled getUrl d s)"
  using assms
  by (subst poll_loop.simps) (simp add: poll_iter_resolved check_status_succeeded)

lemma poll_loop_failed_step:
  assumes "http (calls s) = HttpOk d" and "status_is d ''failed''"
  shows "poll_loop http getUrl numErrors s = Some (Inl (NodeApiError ''Prediction failed'' d), polled getUrl d s)"
  using assms
  by (subst poll_loop.simps) (simp add: poll_iter_resolved check_status_failed)

lemma poll_loop_rejected_step:
  assumes "http (calls s) = HttpErr x" and "numErrors < 2" and "pending (responseData s)"
  shows "poll_loop http getUrl numErrors s =
           poll_loop http getUrl (numErrors + 1)
             (s\<lparr>calls := calls s + 1,
                trace := trace s @ poll_events getUrl @ [Sleep 10000]\<rparr>)"
  using assms
  by (subst poll_loop.simps)
    (simp add: poll_iter_rejected [where http = http and s = s] check_status_pending)

lemma poll_loop_rejected_cap:
  assumes "http (calls s) = HttpErr x" and "numErrors \<ge> 2"
  shows "poll_loop http getUrl numErrors s =
           Some (Inl (NodeApiError ''Error getting data from replicate'' x),
                 s\<lparr>calls := calls s + 1, trace := trace s @ poll_events getUrl\<rparr>)"
  using assms
  by (subst poll_loop.simps) (simp add: poll_iter_rejected [where http = http and s = s])

lemma calls_polled_all [simp]: "calls (polled_all getUrl ds s) = calls s + length ds"
  by (induction ds arbitrary: s) simp_all

lemma trace_polled_all [simp]:
  "trace (polled_all getUrl ds s) = trace s @ concat (replicate (length ds) (poll_events getUrl))"
  by (induction ds arbitrary: s) simp_all

lemma responseData_polled_all [simp]:
  "responseData (polled_all getUrl ds s) = (if ds = [] then responseData s else last ds)"
  by (induction ds arbitrary: s) simp_all

lemma polled_all_eq:
  "polled_all getUrl ds s =
     s\<lparr>calls := calls s + length ds,
       trace := trace s @ concat (replicate (length ds) (poll_events getUrl)),
       responseData := (if ds = [] then responseData s else last ds)\<rparr>"
  by (induction ds arbitrary: s) (simp_all add: polled_def)

lemma poll_loop_pending_all:
  assumes "\<forall>j<length ds. http (calls s + j) = HttpOk (ds ! j) \<and> pending (ds ! j)"
  shows "poll_loop http getUrl numErrors s = poll_loop http getUrl numErrors (polled_all getUrl ds s)"
  using assms
proof (induction ds arbitrary: s)
  case Nil
  then show ?case by simp
next
  case (Cons d ds)
  from Cons.prems have hd: "http (calls s) = HttpOk d" "pending d"
    by force+
  have tl: "\<forall>j<length ds. http (calls (polled getUrl d s) + j) = HttpOk (ds ! j) \<and> pending (ds ! j)"
  proof (intro allI impI)
    fix j assume "j < length ds"
    then have "Suc j < length (d # ds)" by simp
    with Cons.prems have "http (calls s + Suc j) = HttpOk ((d # ds) ! Suc j) \<and> pending ((d # ds) ! Suc j)"
      by blast
    then show "http (calls (polled getUrl d s) + j) = HttpOk (ds ! j) \<and> pending (ds ! j)"
      by simp
  qed
  show ?case
    using poll_loop_pending_step [where http = http and s = s, OF hd] Cons.IH [OF tl] by simp
qed

lemma poll_loop_succeeds_after_pending:
  assumes "\<forall>j<length ds. http (calls s + j) = HttpOk (ds ! j) \<and> pending (ds ! j)"
    and "http (calls s + length ds) = HttpOk d" and "status_is d ''succeeded''"
  shows "poll_loop http getUrl numErrors s = Some (Inr (), polled_all getUrl (ds @ [d]) s)"
proof -
  have "poll_loop http getUrl numErrors s = poll_loop http getUrl numErrors (polled_all getUrl ds s)"
    using assms(1) by (rule poll_loop_pending_all)
  also have "\<dots> = Some (Inr (), polled getUrl d (polled_all getUrl ds s))"
    using assms(2,3) by (intro poll_loop_succeeded_step) simp_all
  also have "polled getUrl d (polled_all getUrl ds s) = polled_all getUrl (ds @ [d]) s"
    by (induction ds arbitrary: s) simp_all
  finally show ?thesis .
qed

text \<open>
  Non-termination. The loop's fixed-point induction rule gives: a run that ends is not a
  run in which every poll resolves with a pending payload.
\<close>

lemma poll_loop_None_aux:
  assumes "poll_loop http getUrl numErrors s = Some y"
  shows "\<not> (\<forall>j. \<exists>d. http (calls s + j) = HttpOk d \<and> pending d)"
proof (rule poll_loop.raw_induct
    [where P = "\<lambda>http getUrl numErrors s y. \<not> (\<forall>j. \<exists>d. http (calls s + j) = HttpOk d \<and> pending d)",
      OF _ assms])
  fix loop :: "(nat \<Rightarrow> http_result) \<Rightarrow> jsval \<Rightarrow> nat \<Rightarrow> exec_state \<Rightarrow> ((error + unit) \<times> exec_state) option"
  fix http getUrl numErrors s y
  assume IH: "\<And>h u n t z. loop h u n t = Some z
                \<Longrightarrow> \<not> (\<forall>j. \<exists>d. h (calls t + j) = HttpOk d \<and> pending d)"
  assume body: "(case poll_iter http getUrl numErrors s of
                   (Continue n, s') \<Rightarrow> loop http getUrl n s'
                 | (Break, s') \<Rightarrow> Some (Inr (), s')
                 | (Throw e, s') \<Rightarrow> Some (Inl e, s')) = Some y"
  show "\<not> (\<forall>j. \<exists>d. http (calls s + j) = HttpOk d \<and> pending d)"
  proof
    assume inv: "\<forall>j. \<exists>d. http (calls s + j) = HttpOk d \<and> pending d"
    then obtain d where d: "http (calls s) = HttpOk d" "pending d"
      by (metis add.right_neutral)
    have it: "poll_iter http getUrl numErrors s = (Continue numErrors, polled getUrl d s)"
      using d by (simp add: poll_iter_resolved check_status_pending)
    with body have "loop http getUrl numErrors (polled getUrl d s) = Some y"
      by simp
    then have "\<not> (\<forall>j. \<exists>d'. http (calls (polled getUrl d s) + j) = HttpOk d' \<and> pending d')"
      by (rule IH)
    moreover have "\<forall>j. \<exists>d'. http (calls (polled getUrl d s) + j) = HttpOk d' \<and> pending d'"
    proof
      fix j
      from inv obtain d' where "http (calls s + Suc j) = HttpOk d' \<and> pending d'" by blast
      then show "\<exists>d'. http (calls (polled getUrl d s) + j) = HttpOk d' \<and> pending d'"
        by auto
    qed
    ultimately show False by blast
  qed
qed

lemma poll_loop_always_pending:
  assumes "\<forall>j. \<exists>d. http (calls s + j) = HttpOk d \<and> pending d"
  shows "poll_loop http getUrl numErrors s = None"
proof (cases "poll_loop http getUrl numErrors s")
  case None
  then show ?thesis .
next
  case (Some y)
  then show ?thesis using poll_loop_None_aux [OF Some] assms by blast
qed

text \<open>
  The errors with which the loop can end.
\<close>

lemma poll_loop_errors:
  assumes "poll_loop http getUrl numErrors s = Some (Inl e, s')"
  shows "(\<exists>v p. e = TypeError v p) \<or> (\<exists>d. e = NodeApiError ''Prediction failed'' d) \<or> (\<exists>x. e = NodeApiError ''Error getting data from replicate'' x)"
proof -
  have "\<forall>e s'. y = (Inl e, s') \<longrightarrow>
          (\<exists>v p. e = TypeError v p) \<or> (\<exists>d. e = NodeApiError ''Prediction failed'' d) \<or> (\<exists>x. e = NodeApiError ''Error getting data from replicate'' x)"
    if "poll_loop http getUrl numErrors s = Some y" for y
  proof (rule poll_loop.raw_induct
      [where P = "\<lambda>http getUrl numErrors s y. \<forall>e s'. y = (Inl e, s') \<longrightarrow>
          (\<exists>v p. e = TypeError v p) \<or> (\<exists>d. e = NodeApiError ''Prediction failed'' d) \<or> (\<exists>x. e = NodeApiError ''Error getting data from replicate'' x)",
        OF _ that])
    fix loop :: "(nat \<Rightarrow> http_result) \<Rightarrow> jsval \<Rightarrow> nat \<Rightarrow> exec_state \<Rightarrow> ((error + unit) \<times> exec_state) option"
    fix http getUrl numErrors s y
    assume IH: "\<And>h u n t z. loop h u n t = Some z \<Longrightarrow> \<forall>e s'. z = (Inl e, s') \<longrightarrow>
          (\<exists>v p. e = TypeError v p) \<or> (\<exists>d. e = NodeApiError ''Prediction failed'' d) \<or> (\<exists>x. e = NodeApiError ''Error getting data from replicate'' x)"
    assume body: "(case poll_iter http getUrl numErrors s of
                   (Continue n, s') \<Rightarrow> loop http getUrl n s'
                 | (Break, s') \<Rightarrow> Some (Inr (), s')
                 | (Throw e, s') \<Rightarrow> Some (Inl e, s')) = Some y"
    obtain r s1 where it: "poll_iter http getUrl numErrors s = (r, s1)"
      by (cases "poll_iter http getUrl numErrors s")
    show "\<forall>e s'. y = (Inl e, s') \<longrightarrow>
          (\<exists>v p. e = TypeError v p) \<or> (\<exists>d. e = NodeApiError ''Prediction failed'' d) \<or> (\<exists>x. e = NodeApiError ''Error getting data from replicate'' x)"
    proof (cases r)
      case (Continue n)
      with body it have "loop http getUrl n s1 = Some y" by simp
      then show ?thesis by (rule IH)
    next
      case Break
      with body it show ?thesis by auto
    next
      case (Throw e)
      with body it have "y = (Inl e, s1)" by simp
      moreover have "(\<exists>v p. e = TypeError v p) \<or> (\<exists>d. e = NodeApiError ''Prediction failed'' d) \<or> (\<exists>x. e = NodeApiError ''Error getting data from replicate'' x)"
        using poll_iter_throws it Throw by blast
      ultimately show ?thesis by simp
    qed
  qed
  with assms show ?thesis by blast
qed

text \<open>
  An item whose submission resolved.
\<close>

lemma run_item_submitted:
  assumes "http (calls s) = HttpOk res" and "get_url res = Inr getUrl"
  shows "run_item http i item s =
           (if falsy getUrl then Some (Inl (NodeApiError ''No get url found in response'' res), submitted item s)
            else (case poll_loop http getUrl 0 (submitted item s) of
                    None \<Rightarrow> None
                  | Some (Inl e, s2) \<Rightarrow> Some (Inl e, s2)
                  | Some (Inr u, s2) \<Rightarrow> Some (Inr [\<lparr>json = responseData s2, pairedItem = i\<rparr>], s2)))"
  unfolding run_item_def executionData_def submitted_def submit_event_def
  using assms by (simp add: httpRequest_def)

text \<open>
  Unfolding rules for running the node on a given service.
\<close>

lemmas run_defs =
  execute_def initial_state_def run_item_def httpRequest_def get_url_def js_get_def
  nullish_def falsy_def poll_loop.simps poll_iter_def sleep_def check_status_def
  executionData_def mapProperties_def object_assign_def Let_def

section \<open>Job client: properties\<close>

text \<open>
  Claim C1. Let the submission of an item answer with a status URL, let the next polls
  resolve with the payloads \<open>ds\<close>, none of which reports \<open>failed\<close> or \<open>succeeded\<close>, and
  let the poll after them resolve with a payload \<open>d\<close> that reports \<open>succeeded\<close>. With
  \<open>k = length ds + 1\<close>, the item makes exactly \<open>k\<close> GET requests after its POST, each
  one directly preceded by a wait of 5000 ms (the fixed delay of 5 units; the first
  request included), and its result is the \<open>k\<close>-th payload \<open>d\<close>, whole, tagged with the
  index of the item.
\<close>

theorem polling_success_path:
  assumes "http (calls s) = HttpOk res" and "get_url res = Inr getUrl" and "\<not> falsy getUrl"
    and "\<forall>j<length ds. http (calls s + 1 + j) = HttpOk (ds ! j) \<and> pending (ds ! j)"
    and "http (calls s + 1 + length ds) = HttpOk d" and "status_is d ''succeeded''"
  shows "run_item http i item s =
           Some (Inr [\<lparr>json = d, pairedItem = i\<rparr>],
                 s\<lparr>calls := calls s + 1 + (length ds + 1),
                   trace := trace s @ [submit_event item]
                              @ concat (replicate (length ds + 1)
                                          [Sleep 5000, Request ''GET'' getUrl JUndefined]),
                   responseData := d\<rparr>)"
proof -
  let ?s1 = "submitted item s"
  have c: "calls ?s1 = calls s + 1" by (simp add: submitted_def)
  have "poll_loop http getUrl 0 ?s1 = Some (Inr (), polled_all getUrl (ds @ [d]) ?s1)"
    using assms(4,5,6) by (intro poll_loop_succeeds_after_pending) (simp_all add: c)
  then show ?thesis
    using assms(1,2,3)
    by (simp add: run_item_submitted [where s = s and http = http] executionData_def polled_all_eq
        submitted_def poll_events_def)
qed

text \<open>
  The status sequence \<open>starting\<close>, \<open>processing\<close>, \<open>succeeded\<close>: the third payload after
  three polls and three waits of 5000 ms.
\<close>

theorem polling_success_path_witness:
  "run_item
     (\<lambda>n. if n = 0 then HttpOk (JObj [(''urls'', JObj [(''get'', JStr ''u'')])])
          else if n = 1 then HttpOk (JObj [(''status'', JStr ''starting'')])
          else if n = 2 then HttpOk (JObj [(''status'', JStr ''processing'')])
          else HttpOk (JObj [(''status'', JStr ''succeeded''), (''output'', JNum 42)]))
     0 \<lparr>modelVersion = ''v1'', properties = []\<rparr> initial_state
   = Some (Inr [\<lparr>json = JObj [(''status'', JStr ''succeeded''), (''output'', JNum 42)],
                  pairedItem = 0\<rparr>],
           \<lparr>calls = 4,
            trace = [Request ''POST'' (JStr ''https://api.replicate.com/v1/predictions'')
                       (JObj [(''version'', JStr ''v1''), (''input'', JObj [])]),
                     Sleep 5000, Request ''GET'' (JStr ''u'') JUndefined,
                     Sleep 5000, Request ''GET'' (JStr ''u'') JUndefined,
                     Sleep 5000, Request ''GET'' (JStr ''u'') JUndefined],
            responseData = JObj [(''status'', JStr ''succeeded''), (''output'', JNum 42)]\<rparr>)"
proof -
  let ?http = "\<lambda>n::nat. if n = 0 then HttpOk (JObj [(''urls'', JObj [(''get'', JStr ''u'')])])
          else if n = 1 then HttpOk (JObj [(''status'', JStr ''starting'')])
          else if n = 2 then HttpOk (JObj [(''status'', JStr ''processing'')])
          else HttpOk (JObj [(''status'', JStr ''succeeded''), (''output'', JNum 42)])"
  let ?ds = "[JObj [(''status'', JStr ''starting'')], JObj [(''status'', JStr ''processing'')]]"
  have h1: "?http (calls initial_state) = HttpOk (JObj [(''urls'', JObj [(''get'', JStr ''u'')])])"
    by (simp add: initial_state_def)
  have h2: "get_url (JObj [(''urls'', JObj [(''get'', JStr ''u'')])]) = Inr (JStr ''u'')"
    by (simp add: get_url_def js_get_def nullish_def)
  have h3: "\<not> falsy (JStr ''u'')"
    by (simp add: falsy_def)
  have h4: "\<forall>j<length ?ds. ?http (calls initial_state + 1 + j) = HttpOk (?ds ! j) \<and> pending (?ds ! j)"
    by (simp add: initial_state_def pending_def js_get_def less_Suc_eq)
  have h5: "?http (calls initial_state + 1 + length ?ds)
              = HttpOk (JObj [(''status'', JStr ''succeeded''), (''output'', JNum 42)])"
    by (simp add: initial_state_def)
  have h6: "status_is (JObj [(''status'', JStr ''succeeded''), (''output'', JNum 42)]) ''succeeded''"
    by (simp add: status_is_def js_get_def)
  show ?thesis
    using polling_success_path [where http = ?http and s = initial_state and ds = ?ds
        and i = 0 and item = "\<lparr>modelVersion = ''v1'', properties = []\<rparr>", OF h1 h2 h3 h4 h5 h6]
    by (simp add: initial_state_def submit_event_def mapProperties_def)
qed

text \<open>
  Claim C2. When a poll resolves with a payload \<open>d\<close> that reports \<open>failed\<close>, the loop
  ends at once, whatever its state, with the \<open>NodeApiError\<close> of message
  \<open>Prediction failed\<close> that carries the whole payload \<open>d\<close>; no further request or wait
  follows that poll. When it is the first poll of an item, the item fails with that error
  after exactly one GET request.
\<close>

theorem prediction_failed_path:
  assumes "status_is d ''failed''"
  shows "(http (calls s) = HttpOk d \<longrightarrow>
            poll_loop http getUrl numErrors s =
              Some (Inl (NodeApiError ''Prediction failed'' d),
                    s\<lparr>calls := calls s + 1,
                      trace := trace s @ [Sleep 5000, Request ''GET'' getUrl JUndefined],
                      responseData := d\<rparr>))
       \<and> (http (calls s) = HttpOk res \<and> get_url res = Inr getUrl \<and> \<not> falsy getUrl
            \<and> http (calls s + 1) = HttpOk d \<longrightarrow>
            run_item http i item s =
              Some (Inl (NodeApiError ''Prediction failed'' d),
                    s\<lparr>calls := calls s + 2,
                      trace := trace s @ [submit_event item, Sleep 5000,
                                          Request ''GET'' getUrl JUndefined],
                      responseData := d\<rparr>))"
proof (intro conjI impI)
  assume "http (calls s) = HttpOk d"
  then show "poll_loop http getUrl numErrors s =
              Some (Inl (NodeApiError ''Prediction failed'' d),
                    s\<lparr>calls := calls s + 1,
                      trace := trace s @ [Sleep 5000, Request ''GET'' getUrl JUndefined],
                      responseData := d\<rparr>)"
    using poll_loop_failed_step [where http = http and s = s, OF _ assms]
    by (simp add: polled_def poll_events_def)
next
  assume a: "http (calls s) = HttpOk res \<and> get_url res = Inr getUrl \<and> \<not> falsy getUrl
            \<and> http (calls s + 1) = HttpOk d"
  let ?s1 = "submitted item s"
  have "http (calls ?s1) = HttpOk d" using a by (simp add: submitted_def)
  then have "poll_loop http getUrl 0 ?s1 = Some (Inl (NodeApiError ''Prediction failed'' d), polled getUrl d ?s1)"
    using assms by (rule poll_loop_failed_step)
  then show "run_item http i item s =
              Some (Inl (NodeApiError ''Prediction failed'' d),
                    s\<lparr>calls := calls s + 2,
                      trace := trace s @ [submit_event item, Sleep 5000,
                                          Request ''GET'' getUrl JUndefined],
                      responseData := d\<rparr>)"
    using a
    by (simp add: run_item_submitted [where s = s and http = http] polled_def
        submitted_def poll_events_def)
qed

text \<open>
  A service that reports \<open>failed\<close> on the first poll.
\<close>

theorem prediction_failed_path_witness:
  "poll_loop (\<lambda>n. HttpOk (JObj [(''status'', JStr ''failed''), (''error'', JStr ''out of memory'')]))
      (JStr ''u'') 0 initial_state
    = Some (Inl (NodeApiError ''Prediction failed'' (JObj [(''status'', JStr ''failed''), (''error'', JStr ''out of memory'')])),
            \<lparr>calls = 1, trace = [Sleep 5000, Request ''GET'' (JStr ''u'') JUndefined],
             responseData = JObj [(''status'', JStr ''failed''), (''error'', JStr ''out of memory'')]\<rparr>)
   \<and> run_item
      (\<lambda>n. if n = 0 then HttpOk (JObj [(''urls'', JObj [(''get'', JStr ''u'')])])
           else HttpOk (JObj [(''status'', JStr ''failed''), (''error'', JStr ''out of memory'')]))
      0 \<lparr>modelVersion = ''v1'', properties = []\<rparr> initial_state
    = Some (Inl (NodeApiError ''Prediction failed'' (JObj [(''status'', JStr ''failed''), (''error'', JStr ''out of memory'')])),
            \<lparr>calls = 2,
             trace = [Request ''POST'' (JStr ''https://api.replicate.com/v1/predictions'')
                        (JObj [(''version'', JStr ''v1''), (''input'', JObj [])]),
                      Sleep 5000, Request ''GET'' (JStr ''u'') JUndefined],
             responseData = JObj [(''status'', JStr ''failed''), (''error'', JStr ''out of memory'')]\<rparr>)"
proof -
  let ?d = "JObj [(''status'', JStr ''failed''), (''error'', JStr ''out of memory'')]"
  let ?res = "JObj [(''urls'', JObj [(''get'', JStr ''u'')])]"
  have f: "status_is ?d ''failed''"
    by (simp add: status_is_def js_get_def)
  have u: "get_url ?res = Inr (JStr ''u'')" "\<not> falsy (JStr ''u'')"
    by (simp_all add: get_url_def js_get_def nullish_def falsy_def)
  show ?thesis
    using prediction_failed_path [OF f, where http = "\<lambda>n. HttpOk ?d" and s = initial_state
        and getUrl = "JStr ''u''" and numErrors = 0]
      prediction_failed_path [OF f, where http = "\<lambda>n. if n = 0 then HttpOk ?res else HttpOk ?d"
        and s = initial_state and getUrl = "JStr ''u''" and res = ?res and i = 0
        and item = "\<lparr>modelVersion = ''v1'', properties = []\<rparr>"]
      u
    by (simp add: initial_state_def submit_event_def mapProperties_def)
qed

text \<open>
  Claim C3 says that three consecutive transport errors end the item with the polling error
  after exactly three GET requests, the first two followed by the wait of 10000 ms. On a
  first item whose three polls are all rejected the code does otherwise: after the first
  rejected poll and its wait of 10000 ms, control reaches the status test, where
  \<^verbatim>\<open>responseData\<close> is still \<^verbatim>\<open>undefined\<close>; the item ends with a \<open>TypeError\<close> after one GET
  request.
\<close>

theorem three_transport_errors_on_first_item:
  "execute
     (\<lambda>n. if n = 0 then HttpOk (JObj [(''urls'', JObj [(''get'', JStr ''u'')])])
          else HttpErr (JStr ''ECONNRESET''))
     ''model'' ''prediction'' [\<lparr>modelVersion = ''v1'', properties = []\<rparr>]
   = Some (Inl (TypeError JUndefined ''status''),
           \<lparr>calls = 2,
            trace = [Request ''POST'' (JStr ''https://api.replicate.com/v1/predictions'')
                       (JObj [(''version'', JStr ''v1''), (''input'', JObj [])]),
                     Sleep 5000, Request ''GET'' (JStr ''u'') JUndefined, Sleep 10000],
            responseData = JUndefined\<rparr>)"
  by (simp add: run_defs)

text \<open>
  The counter and its cap do work as claim C3 says once \<^verbatim>\<open>responseData\<close> holds a payload
  that is pending, for instance after a first poll that reported \<open>processing\<close>.
\<close>

lemma polling_error_cap_after_pending_response:
  assumes "pending (responseData s)"
    and "http (calls s) = HttpErr e1"
    and "http (calls s + 1) = HttpErr e2"
    and "http (calls s + 2) = HttpErr e3"
  shows "poll_loop http getUrl 0 s =
           Some (Inl (NodeApiError ''Error getting data from replicate'' e3),
                 s\<lparr>calls := calls s + 3,
                   trace := trace s @
                     [Sleep 5000, Request ''GET'' getUrl JUndefined, Sleep 10000,
                      Sleep 5000, Request ''GET'' getUrl JUndefined, Sleep 10000,
                      Sleep 5000, Request ''GET'' getUrl JUndefined]\<rparr>)"
proof -
  let ?s1 = "s\<lparr>calls := calls s + 1, trace := trace s @ poll_events getUrl @ [Sleep 10000]\<rparr>"
  let ?s2 = "?s1\<lparr>calls := calls ?s1 + 1, trace := trace ?s1 @ poll_events getUrl @ [Sleep 10000]\<rparr>"
  have "poll_loop http getUrl 0 s = poll_loop http getUrl (0 + 1) ?s1"
    using assms(2) _ assms(1) by (rule poll_loop_rejected_step) simp
  also have "\<dots> = poll_loop http getUrl (0 + 1 + 1) ?s2"
    using assms(1,3) by (intro poll_loop_rejected_step) simp_all
  also have "\<dots> = Some (Inl (NodeApiError ''Error getting data from replicate'' e3),
                 ?s2\<lparr>calls := calls ?s2 + 1, trace := trace ?s2 @ poll_events getUrl\<rparr>)"
    using assms(4) by (intro poll_loop_rejected_cap) simp_all
  finally show ?thesis
    by (simp add: poll_events_def)
qed

text \<open>
  Claim C4 says that an iteration whose poll is rejected, with at most two errors counted,
  waits 10000 ms, raises nothing and makes no terminal transition, also when it is the
  very first poll. The code does otherwise in two situations. On the first item, a
  rejected first poll ends the item with a \<open>TypeError\<close>, although the next poll would have
  reported success. On a later item, a rejected first poll finds in \<^verbatim>\<open>responseData\<close> the
  final payload of the item before, which reports \<open>succeeded\<close>: the loop ends and that
  payload becomes the result of the new item.
\<close>

theorem transport_error_on_first_poll:
  "execute
     (\<lambda>n. if n = 0 then HttpOk (JObj [(''urls'', JObj [(''get'', JStr ''u'')])])
          else if n = 1 then HttpErr (JStr ''ETIMEDOUT'')
          else HttpOk (JObj [(''status'', JStr ''succeeded''), (''output'', JNum 42)]))
     ''model'' ''prediction'' [\<lparr>modelVersion = ''v1'', properties = []\<rparr>]
   = Some (Inl (TypeError JUndefined ''status''),
           \<lparr>calls = 2,
            trace = [Request ''POST'' (JStr ''https://api.replicate.com/v1/predictions'')
                       (JObj [(''version'', JStr ''v1''), (''input'', JObj [])]),
                     Sleep 5000, Request ''GET'' (JStr ''u'') JUndefined, Sleep 10000],
            responseData = JUndefined\<rparr>)
   \<and> execute
     (\<lambda>n. if n = 0 then HttpOk (JObj [(''urls'', JObj [(''get'', JStr ''a'')])])
          else if n = 1 then HttpOk (JObj [(''status'', JStr ''succeeded''), (''output'', JNum 1)])
          else if n = 2 then HttpOk (JObj [(''urls'', JObj [(''get'', JStr ''b'')])])
          else if n = 3 then HttpErr (JStr ''ETIMEDOUT'')
          else HttpOk (JObj [(''status'', JStr ''succeeded''), (''output'', JNum 2)]))
     ''model'' ''prediction''
     [\<lparr>modelVersion = ''A'', properties = []\<rparr>, \<lparr>modelVersion = ''B'', properties = []\<rparr>]
   = Some (Inr [[\<lparr>json = JObj [(''status'', JStr ''succeeded''), (''output'', JNum 1)], pairedItem = 0\<rparr>,
                 \<lparr>json = JObj [(''status'', JStr ''succeeded''), (''output'', JNum 1)], pairedItem = 1\<rparr>]],
           \<lparr>calls = 4,
            trace = [Request ''POST'' (JStr ''https://api.replicate.com/v1/predictions'')
                       (JObj [(''version'', JStr ''A''), (''input'', JObj [])]),
                     Sleep 5000, Request ''GET'' (JStr ''a'') JUndefined,
                     Request ''POST'' (JStr ''https://api.replicate.com/v1/predictions'')
                       (JObj [(''version'', JStr ''B''), (''input'', JObj [])]),
                     Sleep 5000, Request ''GET'' (JStr ''b'') JUndefined, Sleep 10000],
            responseData = JObj [(''status'', JStr ''succeeded''), (''output'', JNum 1)]\<rparr>)"
  by (simp add: run_defs)

text \<open>
  Claim C5 says that the submission fails with the submission error exactly when the
  response lacks a status URL. The code does otherwise when the submission resolves with
  \<^verbatim>\<open>null\<close> (the body of the answer is the JSON text \<^verbatim>\<open>null\<close>): that response has no status
  URL, yet reading \<^verbatim>\<open>res.urls\<close> throws, and the item ends with a \<open>TypeError\<close> and not
  with the \<open>NodeApiError\<close> of message \<open>No get url found in response\<close>.
\<close>

theorem submission_null_response:
  "execute (\<lambda>n. HttpOk JNull) ''model'' ''prediction'' [\<lparr>modelVersion = ''v1'', properties = []\<rparr>]
   = Some (Inl (TypeError JNull ''urls''),
           \<lparr>calls = 1,
            trace = [Request ''POST'' (JStr ''https://api.replicate.com/v1/predictions'')
                       (JObj [(''version'', JStr ''v1''), (''input'', JObj [])])],
            responseData = JUndefined\<rparr>)"
  by (simp add: run_defs)

text \<open>
  On every other response the code does what claim C5 says. Let the submission resolve
  with a response \<open>res\<close> on which \<^verbatim>\<open>res.urls?.get\<close> evaluates to \<open>getUrl\<close> (\<open>res\<close> is
  neither \<^verbatim>\<open>null\<close> nor \<^verbatim>\<open>undefined\<close>). The item fails with the \<open>NodeApiError\<close> of message
  \<open>No get url found in response\<close>, carrying \<open>res\<close>, exactly when \<open>getUrl\<close> is missing (a
  value JavaScript treats as false). In that case the POST is the only request of the
  item: nothing is retried and no poll is made. Otherwise the submission raises nothing
  and the polling loop starts, with an error count of 0, in the state the POST left; the
  outcome of the item is the outcome of the loop.
\<close>

lemma get_url_defined:
  "(\<exists>getUrl. get_url res = Inr getUrl) \<longleftrightarrow> res \<noteq> JNull \<and> res \<noteq> JUndefined"
proof -
  have get: "\<exists>v. js_get u p = Inr v" if "u \<noteq> JNull" "u \<noteq> JUndefined" for u p
    using that by (cases u) (simp_all add: js_get_def)
  show ?thesis
  proof (cases "res = JNull \<or> res = JUndefined")
    case True
    then show ?thesis by (auto simp: get_url_def js_get_def)
  next
    case False
    then obtain urls where u: "js_get res ''urls'' = Inr urls"
      using get [of res "''urls''"] by blast
    show ?thesis
    proof (cases "nullish urls")
      case True
      with u False show ?thesis by (simp add: get_url_def)
    next
      case n: False
      then obtain v where "js_get urls ''get'' = Inr v"
        using get [of urls "''get''"] by (auto simp: nullish_def)
      with u n False show ?thesis by (simp add: get_url_def)
    qed
  qed
qed

lemma submission_error_iff_missing_url:
  assumes "http (calls s) = HttpOk res" and "get_url res = Inr getUrl"
  shows "((\<exists>s'. run_item http i item s = Some (Inl (NodeApiError ''No get url found in response'' res), s')) \<longleftrightarrow> falsy getUrl)
       \<and> (falsy getUrl \<longrightarrow>
            run_item http i item s =
              Some (Inl (NodeApiError ''No get url found in response'' res),
                    s\<lparr>calls := calls s + 1, trace := trace s @ [submit_event item]\<rparr>))
       \<and> (\<not> falsy getUrl \<longrightarrow>
            run_item http i item s =
              (case poll_loop http getUrl 0
                      (s\<lparr>calls := calls s + 1, trace := trace s @ [submit_event item]\<rparr>) of
                 None \<Rightarrow> None
               | Some (Inl e, s2) \<Rightarrow> Some (Inl e, s2)
               | Some (Inr u, s2) \<Rightarrow> Some (Inr [\<lparr>json = responseData s2, pairedItem = i\<rparr>], s2)))"
proof -
  have eq: "run_item http i item s =
           (if falsy getUrl then Some (Inl (NodeApiError ''No get url found in response'' res), submitted item s)
            else (case poll_loop http getUrl 0 (submitted item s) of
                    None \<Rightarrow> None
                  | Some (Inl e, s2) \<Rightarrow> Some (Inl e, s2)
                  | Some (Inr u, s2) \<Rightarrow> Some (Inr [\<lparr>json = responseData s2, pairedItem = i\<rparr>], s2)))"
    using assms by (rule run_item_submitted)
  have no: "run_item http i item s \<noteq> Some (Inl (NodeApiError ''No get url found in response'' res), s')" if "\<not> falsy getUrl" for s'
  proof
    assume r: "run_item http i item s = Some (Inl (NodeApiError ''No get url found in response'' res), s')"
    with eq that have "poll_loop http getUrl 0 (submitted item s) = Some (Inl (NodeApiError ''No get url found in response'' res), s')"
      by (auto split: option.splits sum.splits prod.splits)
    from poll_loop_errors [OF this] show False
      by auto
  qed
  show ?thesis
    using eq no by (auto simp: submitted_def)
qed

text \<open>
  A response without \<open>urls\<close>, and a response with a status URL.
\<close>

lemma submission_error_iff_missing_url_examples:
  "run_item (\<lambda>n. HttpOk (JObj [(''id'', JStr ''p1'')])) 0
      \<lparr>modelVersion = ''v1'', properties = []\<rparr> initial_state
    = Some (Inl (NodeApiError ''No get url found in response'' (JObj [(''id'', JStr ''p1'')])),
            \<lparr>calls = 1,
             trace = [Request ''POST'' (JStr ''https://api.replicate.com/v1/predictions'')
                        (JObj [(''version'', JStr ''v1''), (''input'', JObj [])])],
             responseData = JUndefined\<rparr>)
   \<and> (\<forall>s'. run_item
          (\<lambda>n. if n = 0 then HttpOk (JObj [(''urls'', JObj [(''get'', JStr ''u'')])])
               else HttpOk (JObj [(''status'', JStr ''succeeded'')]))
          0 \<lparr>modelVersion = ''v1'', properties = []\<rparr> initial_state
        \<noteq> Some (Inl (NodeApiError ''No get url found in response'' (JObj [(''urls'', JObj [(''get'', JStr ''u'')])])), s'))"
proof -
  let ?r0 = "JObj [(''id'', JStr ''p1'')]"
  let ?res = "JObj [(''urls'', JObj [(''get'', JStr ''u'')])]"
  let ?item = "\<lparr>modelVersion = ''v1'', properties = []\<rparr>"
  have a: "get_url ?r0 = Inr JUndefined" "falsy JUndefined"
    by (simp_all add: get_url_def js_get_def nullish_def falsy_def)
  have b: "get_url ?res = Inr (JStr ''u'')" "\<not> falsy (JStr ''u'')"
    by (simp_all add: get_url_def js_get_def nullish_def falsy_def)
  have 1: "(\<lambda>n::nat. HttpOk ?r0) (calls initial_state) = HttpOk ?r0"
    by simp
  have 2: "(\<lambda>n::nat. if n = 0 then HttpOk ?res else HttpOk (JObj [(''status'', JStr ''succeeded'')]))
             (calls initial_state) = HttpOk ?res"
    by (simp add: initial_state_def)
  note t1 = submission_error_iff_missing_url [where http = "\<lambda>n. HttpOk ?r0" and s = initial_state
        and i = 0 and item = ?item, OF 1 a(1)]
  note t2 = submission_error_iff_missing_url
        [where http = "\<lambda>n. if n = 0 then HttpOk ?res else HttpOk (JObj [(''status'', JStr ''succeeded'')])"
          and s = initial_state and i = 0 and item = ?item, OF 2 b(1)]
  have A: "run_item (\<lambda>n. HttpOk ?r0) 0 ?item initial_state
    = Some (Inl (NodeApiError ''No get url found in response'' ?r0),
            \<lparr>calls = 1,
             trace = [Request ''POST'' (JStr ''https://api.replicate.com/v1/predictions'')
                        (JObj [(''version'', JStr ''v1''), (''input'', JObj [])])],
             responseData = JUndefined\<rparr>)"
    using t1 a(2) by (simp add: initial_state_def submit_event_def mapProperties_def)
  have B: "\<forall>s'. run_item
          (\<lambda>n. if n = 0 then HttpOk ?res else HttpOk (JObj [(''status'', JStr ''succeeded'')]))
          0 ?item initial_state
        \<noteq> Some (Inl (NodeApiError ''No get url found in response'' ?res), s')"
    using t2 [THEN conjunct1] b(2) by blast
  from A B show ?thesis by (rule conjI)
qed

text \<open>
  Claim C10. A payload that reports \<open>canceled\<close> counts as not terminal. When every poll
  from the current one on resolves with a payload that reports neither \<open>failed\<close> nor
  \<open>succeeded\<close>, the polling loop never ends: it yields no result and raises no error, and
  neither does the item it belongs to.
\<close>

theorem nonterminal_status_never_terminates:
  "pending (JObj ((''status'', JStr ''canceled'') # more_fields))
   \<and> ((\<forall>j. \<exists>d. http (calls s + j) = HttpOk d \<and> pending d)
        \<longrightarrow> poll_loop http getUrl numErrors s = None)
   \<and> (http (calls s) = HttpOk res \<and> get_url res = Inr getUrl \<and> \<not> falsy getUrl
        \<and> (\<forall>j. \<exists>d. http (calls s + 1 + j) = HttpOk d \<and> pending d)
        \<longrightarrow> run_item http i item s = None)"
proof (intro conjI impI)
  show "pending (JObj ((''status'', JStr ''canceled'') # more_fields))"
    by (simp add: pending_def js_get_def)
next
  assume "\<forall>j. \<exists>d. http (calls s + j) = HttpOk d \<and> pending d"
  then show "poll_loop http getUrl numErrors s = None"
    by (rule poll_loop_always_pending)
next
  assume a: "http (calls s) = HttpOk res \<and> get_url res = Inr getUrl \<and> \<not> falsy getUrl
        \<and> (\<forall>j. \<exists>d. http (calls s + 1 + j) = HttpOk d \<and> pending d)"
  then have "\<forall>j. \<exists>d. http (calls (submitted item s) + j) = HttpOk d \<and> pending d"
    by (simp add: submitted_def)
  then have "poll_loop http getUrl 0 (submitted item s) = None"
    by (rule poll_loop_always_pending)
  then show "run_item http i item s = None"
    using a by (simp add: run_item_submitted [where s = s and http = http])
qed

text \<open>
  A service that answers every poll with the status \<open>canceled\<close>.
\<close>

theorem nonterminal_status_never_terminates_witness:
  "poll_loop (\<lambda>n. HttpOk (JObj [(''status'', JStr ''canceled'')])) (JStr ''u'') 0 initial_state = None
   \<and> run_item
        (\<lambda>n. if n = 0 then HttpOk (JObj [(''urls'', JObj [(''get'', JStr ''u'')])])
             else HttpOk (JObj [(''status'', JStr ''canceled'')]))
        0 \<lparr>modelVersion = ''v1'', properties = []\<rparr> initial_state = None"
proof -
  let ?d = "JObj [(''status'', JStr ''canceled'')]"
  let ?res = "JObj [(''urls'', JObj [(''get'', JStr ''u'')])]"
  have u: "get_url ?res = Inr (JStr ''u'')" "\<not> falsy (JStr ''u'')"
    by (simp_all add: get_url_def js_get_def nullish_def falsy_def)
  show ?thesis
    using nonterminal_status_never_terminates [where http = "\<lambda>n. HttpOk ?d" and s = initial_state
        and more_fields = "[]" and getUrl = "JStr ''u''" and numErrors = 0]
      nonterminal_status_never_terminates [where http = "\<lambda>n. if n = 0 then HttpOk ?res else HttpOk ?d"
        and s = initial_state and more_fields = "[]" and getUrl = "JStr ''u''" and res = ?res
        and i = 0 and item = "\<lparr>modelVersion = ''v1'', properties = []\<rparr>"]
      u
    by (simp add: initial_state_def)
qed

section \<open>Batch: properties\<close>

lemma exec_items_append:
  "exec_items http i (xs @ ys) acc s =
     (case exec_items http i xs acc s of
        None \<Rightarrow> None
      | Some (Inl e, s') \<Rightarrow> Some (Inl e, s')
      | Some (Inr acc', s') \<Rightarrow> exec_items http (i + length xs) ys acc' s')"
proof (induction xs arbitrary: i acc s)
  case Nil
  then show ?case by simp
next
  case (Cons x xs)
  show ?case
  proof (cases "run_item http i x s")
    case None
    then show ?thesis by simp
  next
    case (Some r)
    obtain out s1 where r: "r = (out, s1)" by (cases r)
    show ?thesis
    proof (cases out)
      case (Inl e)
      with Some r show ?thesis by simp
    next
      case (Inr data)
      have idx: "i + length (x # xs) = i + 1 + length xs" by simp
      show ?thesis
        unfolding idx using Some r Inr Cons.IH [of "i + 1" "acc @ data" s1] by simp
    qed
  qed
qed

lemma run_item_tagged:
  assumes "run_item http i item s = Some (Inr data, s')"
  shows "data = [\<lparr>json = responseData s', pairedItem = i\<rparr>]"
proof (cases "http (calls s)")
  case (HttpErr x)
  with assms show ?thesis
    by (simp add: run_item_def httpRequest_def)
next
  case (HttpOk res)
  show ?thesis
  proof (cases "get_url res")
    case (Inl e)
    with assms HttpOk show ?thesis
      by (simp add: run_item_def httpRequest_def)
  next
    case (Inr getUrl)
    from assms show ?thesis
      unfolding run_item_submitted [where http = http and s = s, OF HttpOk Inr]
      by (auto split: if_splits option.splits sum.splits prod.splits)
  qed
qed

lemma exec_items_tags:
  assumes "exec_items http i items acc s = Some (Inr out, s')"
  shows "map pairedItem out = map pairedItem acc @ [i..<i + length items]"
  using assms
proof (induction items arbitrary: i acc s)
  case Nil
  then show ?case by simp
next
  case (Cons x xs)
  from Cons.prems obtain data s1 where
    x: "run_item http i x s = Some (Inr data, s1)" and
    rest: "exec_items http (i + 1) xs (acc @ data) s1 = Some (Inr out, s')"
    by (auto split: option.splits sum.splits prod.splits)
  have "map pairedItem out = map pairedItem (acc @ data) @ [i + 1..<i + 1 + length xs]"
    using rest by (rule Cons.IH)
  moreover have "data = [\<lparr>json = responseData s1, pairedItem = i\<rparr>]"
    using x by (rule run_item_tagged)
  ultimately show ?case
    by (simp add: upt_rec)
qed

text \<open>
  A batch whose items all succeed. \<open>ss\<close> lists the states between the items (\<open>ss ! j\<close>
  is the state in which item \<open>j\<close> starts, \<open>ss ! Suc j\<close> the state it leaves) and \<open>rs\<close>
  lists what the items yield.
\<close>

lemma exec_items_all_succeed:
  assumes "length ss = length xs + 1" and "length rs = length xs"
    and "\<forall>j<length xs. run_item http (i + j) (xs ! j) (ss ! j) = Some (Inr (rs ! j), ss ! Suc j)"
  shows "exec_items http i xs acc (ss ! 0) = Some (Inr (acc @ concat rs), ss ! length xs)"
  using assms
proof (induction xs arbitrary: i acc ss rs)
  case Nil
  then show ?case by simp
next
  case (Cons x xs)
  from Cons.prems(1) obtain s0 ss' where ss: "ss = s0 # ss'" "length ss' = length xs + 1"
    by (cases ss) auto
  from Cons.prems(2) obtain r rs' where rs: "rs = r # rs'" "length rs' = length xs"
    by (cases rs) auto
  have hd: "run_item http i x s0 = Some (Inr r, ss' ! 0)"
    using Cons.prems(3) [rule_format, of 0] by (simp add: ss rs)
  have tl: "\<forall>j<length xs. run_item http (i + 1 + j) (xs ! j) (ss' ! j) = Some (Inr (rs' ! j), ss' ! Suc j)"
  proof (intro allI impI)
    fix j assume "j < length xs"
    then have "Suc j < length (x # xs)" by simp
    from Cons.prems(3) [rule_format, OF this]
    show "run_item http (i + 1 + j) (xs ! j) (ss' ! j) = Some (Inr (rs' ! j), ss' ! Suc j)"
      by (simp add: ss rs)
  qed
  have "exec_items http (i + 1) xs (acc @ r) (ss' ! 0)
          = Some (Inr ((acc @ r) @ concat rs'), ss' ! length xs)"
    using ss(2) rs(2) tl by (rule Cons.IH)
  then show ?case
    using hd by (simp add: ss rs)
qed

lemma all_succeed_results:
  assumes "length rs = length xs"
    and "\<forall>j<length xs. run_item http (i + j) (xs ! j) (ss ! j) = Some (Inr (rs ! j), ss ! Suc j)"
  shows "rs = map (\<lambda>j. [\<lparr>json = responseData (ss ! Suc j), pairedItem = i + j\<rparr>]) [0..<length xs]"
proof (rule nth_equalityI)
  show "length rs = length (map (\<lambda>j. [\<lparr>json = responseData (ss ! Suc j), pairedItem = i + j\<rparr>]) [0..<length xs])"
    using assms(1) by simp
next
  fix j assume "j < length rs"
  then have j: "j < length xs" using assms(1) by simp
  with assms(2) have "run_item http (i + j) (xs ! j) (ss ! j) = Some (Inr (rs ! j), ss ! Suc j)"
    by blast
  then have "rs ! j = [\<lparr>json = responseData (ss ! Suc j), pairedItem = i + j\<rparr>]"
    by (rule run_item_tagged)
  then show "rs ! j = map (\<lambda>j. [\<lparr>json = responseData (ss ! Suc j), pairedItem = i + j\<rparr>]) [0..<length xs] ! j"
    using j by simp
qed

text \<open>
  Claim C6. Let the items \<open>xs\<close> of a batch succeed one after the other: item \<open>j\<close>, started
  in the state \<open>ss ! j\<close> that the item before it left (the initial state for the first),
  yields \<open>rs ! j\<close> and leaves the state \<open>ss ! Suc j\<close>.
  \<^item> The batch \<open>xs\<close> returns: its output is one list, the results of the items in input
    order, and the result of item \<open>j\<close> is one entry, the final payload of that item tagged
    with \<open>j\<close>.
  \<^item> If the next item \<open>y\<close> fails, the batch \<open>xs\<close>, \<open>y\<close>, \<open>ys\<close> fails with the error of
    \<open>y\<close> in the very state in which \<open>y\<close> failed: no call is made for the later items
    \<open>ys\<close>, and the outcome is the error alone, the results of \<open>xs\<close> are dropped.
  \<^item> If the next item \<open>y\<close> never ends, neither does the batch.
  \<^item> In general, running a batch is running a first part of it to its end and then, from
    the state and with the output so reached, the rest.
\<close>

theorem batch_sequential_abort:
  assumes "length ss = length xs + 1" and "ss ! 0 = initial_state" and "length rs = length xs"
    and "\<forall>j<length xs. run_item http j (xs ! j) (ss ! j) = Some (Inr (rs ! j), ss ! Suc j)"
  shows "execute http ''model'' ''prediction'' xs = Some (Inr [concat rs], ss ! length xs)
       \<and> rs = map (\<lambda>j. [\<lparr>json = responseData (ss ! Suc j), pairedItem = j\<rparr>]) [0..<length xs]
       \<and> (run_item http (length xs) y (ss ! length xs) = Some (Inl e, s')
            \<longrightarrow> execute http ''model'' ''prediction'' (xs @ y # ys) = Some (Inl e, s'))
       \<and> (run_item http (length xs) y (ss ! length xs) = None
            \<longrightarrow> execute http ''model'' ''prediction'' (xs @ y # ys) = None)
       \<and> exec_items http i (us @ vs) acc s =
            (case exec_items http i us acc s of
               None \<Rightarrow> None
             | Some (Inl e, s') \<Rightarrow> Some (Inl e, s')
             | Some (Inr acc', s') \<Rightarrow> exec_items http (i + length us) vs acc' s')"
proof -
  have run: "\<forall>j<length xs. run_item http (0 + j) (xs ! j) (ss ! j) = Some (Inr (rs ! j), ss ! Suc j)"
    using assms(4) by simp
  have all: "exec_items http 0 xs [] initial_state = Some (Inr (concat rs), ss ! length xs)"
    using exec_items_all_succeed [OF assms(1,3) run, of "[]"] assms(2) by simp
  have 1: "execute http ''model'' ''prediction'' xs = Some (Inr [concat rs], ss ! length xs)"
    using all by (simp add: execute_def)
  have 2: "rs = map (\<lambda>j. [\<lparr>json = responseData (ss ! Suc j), pairedItem = j\<rparr>]) [0..<length xs]"
    using all_succeed_results [OF assms(3) run] by simp
  have 3: "execute http ''model'' ''prediction'' (xs @ y # ys) = Some (Inl e, s')"
    if "run_item http (length xs) y (ss ! length xs) = Some (Inl e, s')"
    using that all by (simp add: execute_def exec_items_append [where xs = xs])
  have 4: "execute http ''model'' ''prediction'' (xs @ y # ys) = None"
    if "run_item http (length xs) y (ss ! length xs) = None"
    using that all by (simp add: execute_def exec_items_append [where xs = xs])
  have 5: "exec_items http i (us @ vs) acc s =
            (case exec_items http i us acc s of
               None \<Rightarrow> None
             | Some (Inl e, s') \<Rightarrow> Some (Inl e, s')
             | Some (Inr acc', s') \<Rightarrow> exec_items http (i + length us) vs acc' s')"
    by (rule exec_items_append)
  from 1 2 3 4 5 show ?thesis by blast
qed

text \<open>
  The batch \<open>A\<close>, \<open>B\<close> in which both items succeed on their first poll: two results, in
  input order, tagged 0 and 1. And the batch \<open>A\<close>, \<open>B\<close>, \<open>C\<close> in which \<open>A\<close> succeeds
  and the submission of \<open>B\<close> fails: the outcome is the error, the log ends with the POST
  of \<open>B\<close>.
\<close>

theorem batch_sequential_abort_witness:
  "execute
     (\<lambda>n. if n = 0 then HttpOk (JObj [(''urls'', JObj [(''get'', JStr ''a'')])])
          else if n = 1 then HttpOk (JObj [(''status'', JStr ''succeeded''), (''output'', JNum 1)])
          else if n = 2 then HttpOk (JObj [(''urls'', JObj [(''get'', JStr ''b'')])])
          else HttpOk (JObj [(''status'', JStr ''succeeded''), (''output'', JNum 2)]))
     ''model'' ''prediction''
     [\<lparr>modelVersion = ''A'', properties = []\<rparr>, \<lparr>modelVersion = ''B'', properties = []\<rparr>]
   = Some (Inr [[\<lparr>json = JObj [(''status'', JStr ''succeeded''), (''output'', JNum 1)], pairedItem = 0\<rparr>,
                 \<lparr>json = JObj [(''status'', JStr ''succeeded''), (''output'', JNum 2)], pairedItem = 1\<rparr>]],
           \<lparr>calls = 4,
            trace = [Request ''POST'' (JStr ''https://api.replicate.com/v1/predictions'')
                       (JObj [(''version'', JStr ''A''), (''input'', JObj [])]),
                     Sleep 5000, Request ''GET'' (JStr ''a'') JUndefined,
                     Request ''POST'' (JStr ''https://api.replicate.com/v1/predictions'')
                       (JObj [(''version'', JStr ''B''), (''input'', JObj [])]),
                     Sleep 5000, Request ''GET'' (JStr ''b'') JUndefined],
            responseData = JObj [(''status'', JStr ''succeeded''), (''output'', JNum 2)]\<rparr>)
   \<and> execute
     (\<lambda>n. if n = 0 then HttpOk (JObj [(''urls'', JObj [(''get'', JStr ''a'')])])
          else if n = 1 then HttpOk (JObj [(''status'', JStr ''succeeded'')])
          else HttpOk (JObj [(''detail'', JStr ''invalid version'')]))
     ''model'' ''prediction''
     [\<lparr>modelVersion = ''A'', properties = []\<rparr>,
      \<lparr>modelVersion = ''B'', properties = []\<rparr>,
      \<lparr>modelVersion = ''C'', properties = []\<rparr>]
   = Some (Inl (NodeApiError ''No get url found in response'' (JObj [(''detail'', JStr ''invalid version'')])),
           \<lparr>calls = 3,
            trace = [Request ''POST'' (JStr ''https://api.replicate.com/v1/predictions'')
                       (JObj [(''version'', JStr ''A''), (''input'', JObj [])]),
                     Sleep 5000, Request ''GET'' (JStr ''a'') JUndefined,
                     Request ''POST'' (JStr ''https://api.replicate.com/v1/predictions'')
                       (JObj [(''version'', JStr ''B''), (''input'', JObj [])])],
            responseData = JObj [(''status'', JStr ''succeeded'')]\<rparr>)"
proof -
  let ?A = "\<lparr>modelVersion = ''A'', properties = []\<rparr>"
  let ?B = "\<lparr>modelVersion = ''B'', properties = []\<rparr>"
  let ?C = "\<lparr>modelVersion = ''C'', properties = []\<rparr>"
  let ?postA = "Request ''POST'' (JStr ''https://api.replicate.com/v1/predictions'')
                  (JObj [(''version'', JStr ''A''), (''input'', JObj [])])"
  let ?postB = "Request ''POST'' (JStr ''https://api.replicate.com/v1/predictions'')
                  (JObj [(''version'', JStr ''B''), (''input'', JObj [])])"
  let ?h = "\<lambda>n::nat. if n = 0 then HttpOk (JObj [(''urls'', JObj [(''get'', JStr ''a'')])])
          else if n = 1 then HttpOk (JObj [(''status'', JStr ''succeeded''), (''output'', JNum 1)])
          else if n = 2 then HttpOk (JObj [(''urls'', JObj [(''get'', JStr ''b'')])])
          else HttpOk (JObj [(''status'', JStr ''succeeded''), (''output'', JNum 2)])"
  let ?p1 = "JObj [(''status'', JStr ''succeeded''), (''output'', JNum 1)]"
  let ?p2 = "JObj [(''status'', JStr ''succeeded''), (''output'', JNum 2)]"
  let ?s1 = "\<lparr>calls = 2, trace = [?postA, Sleep 5000, Request ''GET'' (JStr ''a'') JUndefined],
             responseData = ?p1\<rparr>"
  let ?s2 = "\<lparr>calls = 4,
             trace = [?postA, Sleep 5000, Request ''GET'' (JStr ''a'') JUndefined,
                      ?postB, Sleep 5000, Request ''GET'' (JStr ''b'') JUndefined],
             responseData = ?p2\<rparr>"
  let ?ss = "[initial_state, ?s1, ?s2]"
  let ?rs = "[[\<lparr>json = ?p1, pairedItem = 0\<rparr>], [\<lparr>json = ?p2, pairedItem = 1\<rparr>]]"
  have a0: "run_item ?h 0 ?A initial_state = Some (Inr [\<lparr>json = ?p1, pairedItem = 0\<rparr>], ?s1)"
    by (simp add: run_defs)
  have a1: "run_item ?h 1 ?B ?s1 = Some (Inr [\<lparr>json = ?p2, pairedItem = 1\<rparr>], ?s2)"
    by (simp add: run_defs)
  have a: "\<forall>j<length [?A, ?B]. run_item ?h j ([?A, ?B] ! j) (?ss ! j) = Some (Inr (?rs ! j), ?ss ! Suc j)"
    using a0 a1 by (simp add: less_Suc_eq)
  have 1: "execute ?h ''model'' ''prediction'' [?A, ?B] = Some (Inr [concat ?rs], ?ss ! length [?A, ?B])"
    using batch_sequential_abort [where ss = ?ss and xs = "[?A, ?B]" and rs = ?rs and http = ?h, OF _ _ _ a]
    by simp
  let ?g = "\<lambda>n::nat. if n = 0 then HttpOk (JObj [(''urls'', JObj [(''get'', JStr ''a'')])])
          else if n = 1 then HttpOk (JObj [(''status'', JStr ''succeeded'')])
          else HttpOk (JObj [(''detail'', JStr ''invalid version'')])"
  let ?q1 = "JObj [(''status'', JStr ''succeeded'')]"
  let ?t1 = "\<lparr>calls = 2, trace = [?postA, Sleep 5000, Request ''GET'' (JStr ''a'') JUndefined],
             responseData = ?q1\<rparr>"
  let ?t2 = "\<lparr>calls = 3, trace = [?postA, Sleep 5000, Request ''GET'' (JStr ''a'') JUndefined, ?postB],
             responseData = ?q1\<rparr>"
  have b0: "run_item ?g 0 ?A initial_state = Some (Inr [\<lparr>json = ?q1, pairedItem = 0\<rparr>], ?t1)"
    by (simp add: run_defs)
  have b: "\<forall>j<length [?A]. run_item ?g j ([?A] ! j) ([initial_state, ?t1] ! j)
             = Some (Inr ([[\<lparr>json = ?q1, pairedItem = 0\<rparr>]] ! j), [initial_state, ?t1] ! Suc j)"
    using b0 by simp
  have b1: "run_item ?g (length [?A]) ?B ([initial_state, ?t1] ! length [?A])
              = Some (Inl (NodeApiError ''No get url found in response''
                             (JObj [(''detail'', JStr ''invalid version'')])), ?t2)"
    by (simp add: run_defs)
  have 2: "execute ?g ''model'' ''prediction'' ([?A] @ ?B # [?C])
             = Some (Inl (NodeApiError ''No get url found in response''
                            (JObj [(''detail'', JStr ''invalid version'')])), ?t2)"
    using batch_sequential_abort [where ss = "[initial_state, ?t1]" and xs = "[?A]"
        and rs = "[[\<lparr>json = ?q1, pairedItem = 0\<rparr>]]" and http = ?g and y = ?B and ys = "[?C]"
        and s' = ?t2, OF _ _ _ b] b1
    by simp
  from 1 2 show ?thesis by simp
qed

end
